theory Spec2Isabelle
  imports Complex_Main "HOL-Library.Sublist"
begin

section \<open>Python values held by the drink store\<close>

text \<open>
  The store keeps whatever \<^verbatim>\<open>json.load\<close> returned: nothing in \<^verbatim>\<open>app/main.py\<close>
  checks the shape of loaded data. The state is therefore modelled over the values a JSON
  document can hold. A Python \<^verbatim>\<open>dict\<close> is an association list read with \<open>map_of\<close>.
  A float is its exact rational value or one of the three special values; rounding is not
  modelled, so the only float arithmetic of the program (\<^verbatim>\<open>next_id += 1\<close> on a counter
  that was loaded as a float) is idealised, and no theorem below depends on the value it computes.
  A character stands for the code point of the same number (0 to 255).
\<close>

datatype pyfloat = Finite rat | PosInf | NegInf | NaN

datatype json =
    JNull
  | JBool bool
  | JInt int
  | JFloat pyfloat
  | JStr string
  | JArr "json list"
  | JObj "(string \<times> json) list"

datatype pyerror = TypeError | AttributeError | KeyError

fun float_gt0 :: "pyfloat \<Rightarrow> bool" where
  "float_gt0 (Finite r) = (0 < r)"
| "float_gt0 PosInf = True"
| "float_gt0 NegInf = False"
| "float_gt0 NaN = False"

fun float_le0 :: "pyfloat \<Rightarrow> bool" where
  "float_le0 (Finite r) = (r \<le> 0)"
| "float_le0 PosInf = False"
| "float_le0 NegInf = True"
| "float_le0 NaN = False"

fun float_add1 :: "pyfloat \<Rightarrow> pyfloat" where
  "float_add1 (Finite r) = Finite (r + 1)"
| "float_add1 PosInf = PosInf"
| "float_add1 NegInf = NegInf"
| "float_add1 NaN = NaN"

text \<open>\<^verbatim>\<open>str.lower\<close>, \<^verbatim>\<open>str.strip\<close> and \<^verbatim>\<open>str.startswith\<close> on code points below 256.\<close>

definition lower_char :: "char \<Rightarrow> char" where
  "lower_char c =
     (let n = (of_char c :: nat) in
      if (65 \<le> n \<and> n \<le> 90) \<or> (192 \<le> n \<and> n \<le> 222 \<and> n \<noteq> 215)
      then char_of (n + 32) else c)"

definition str_lower :: "string \<Rightarrow> string" where
  "str_lower s = map lower_char s"

definition isspace :: "char \<Rightarrow> bool" where
  "isspace c = ((of_char c :: nat) \<in> set [9, 10, 11, 12, 13, 28, 29, 30, 31, 32, 133, 160])"

definition str_strip :: "string \<Rightarrow> string" where
  "str_strip s = rev (dropWhile isspace (rev (dropWhile isspace s)))"

definition startswith :: "string \<Rightarrow> string \<Rightarrow> bool" where
  "startswith s p = (take (length p) s = p)"

text \<open>\<^verbatim>\<open>d.get(k, default)\<close> on a dict.\<close>

definition dict_get :: "(string \<times> json) list \<Rightarrow> string \<Rightarrow> json \<Rightarrow> json" where
  "dict_get kvs k dflt = (case map_of kvs k of None \<Rightarrow> dflt | Some v \<Rightarrow> v)"

section \<open>Models: \<^verbatim>\<open>DrinkBase\<close>, \<^verbatim>\<open>DrinkCreate\<close>\<close>

record drink_create =
  name :: string
  drink_size :: string
  price :: pyfloat

text \<open>A field-level error of the model: the field it is located at and its message.\<close>

datatype validation_error = ValidationError string string

text \<open>
  The three validator functions of \<^verbatim>\<open>DrinkBase\<close>, \<open>Inl\<close> carrying the message of the
  \<^verbatim>\<open>ValueError\<close> raised.
\<close>

definition name_must_not_be_empty :: "string \<Rightarrow> string + string" where
  "name_must_not_be_empty v =
     (if v = [] \<or> str_strip v = [] then Inl ''Name cannot be empty'' else Inr (str_strip v))"

definition size_must_be_valid :: "string \<Rightarrow> string + string" where
  "size_must_be_valid v =
     (if v \<notin> set [''S'', ''M'', ''L''] then Inl ''Size must be S, M, or L'' else Inr v)"

definition price_must_be_positive :: "pyfloat \<Rightarrow> string + pyfloat" where
  "price_must_be_positive v =
     (if float_le0 v then Inl ''Price must be greater than 0'' else Inr v)"

text \<open>The constraints given to \<^verbatim>\<open>Field\<close>: \<^verbatim>\<open>min_length=1\<close> and \<^verbatim>\<open>gt=0\<close>.\<close>

definition min_length_1 :: "string \<Rightarrow> string + string" where
  "min_length_1 v =
     (if length v < 1 then Inl ''String should have at least 1 character'' else Inr v)"

definition gt_0 :: "pyfloat \<Rightarrow> string + pyfloat" where
  "gt_0 v = (if float_gt0 v then Inr v else Inl ''Input should be greater than 0'')"

text \<open>
  What each field goes through. \<^verbatim>\<open>size\<close> and \<^verbatim>\<open>price\<close> carry
  \<^verbatim>\<open>@field_validator\<close>, which runs after the constraint of the field. Line 17 of
  \<^verbatim>\<open>app/main.py\<close> reads \<^verbatim>\<open>field_validator('name')\<close> with no \<^verbatim>\<open>@\<close>: the call is evaluated
  and dropped, \<^verbatim>\<open>name_must_not_be_empty\<close> is an ordinary method that validation never
  calls, and \<^verbatim>\<open>name\<close> goes through \<^verbatim>\<open>min_length=1\<close> alone. The message of a
  \<^verbatim>\<open>ValueError\<close> raised by a validator is reported after the words \<^verbatim>\<open>Value error, \<close>.
\<close>

fun value_error :: "string + 'a \<Rightarrow> string + 'a" where
  "value_error (Inl m) = Inl (''Value error, '' @ m)"
| "value_error (Inr v) = Inr v"

definition validate_name :: "string \<Rightarrow> string + string" where
  "validate_name v = min_length_1 v"

definition validate_size :: "string \<Rightarrow> string + string" where
  "validate_size v = value_error (size_must_be_valid v)"

definition validate_price :: "pyfloat \<Rightarrow> string + pyfloat" where
  "validate_price v =
     (case gt_0 v of Inl m \<Rightarrow> Inl m | Inr v' \<Rightarrow> value_error (price_must_be_positive v'))"

fun errors_at :: "string \<Rightarrow> string + 'a \<Rightarrow> validation_error list" where
  "errors_at loc (Inl m) = [ValidationError loc m]"
| "errors_at loc (Inr v) = []"

text \<open>
  Constructing a \<^verbatim>\<open>DrinkCreate\<close>: every field is validated, and the errors of all fields
  are reported together, in field order.
\<close>

definition DrinkCreate :: "string \<Rightarrow> string \<Rightarrow> pyfloat \<Rightarrow> validation_error list + drink_create" where
  "DrinkCreate n s p =
     (case (validate_name n, validate_size s, validate_price p) of
        (Inr n', Inr s', Inr p') \<Rightarrow> Inr \<lparr>name = n', drink_size = s', price = p'\<rparr>
      | (rn, rs, rp) \<Rightarrow>
          Inl (errors_at ''name'' rn @ errors_at ''size'' rs @ errors_at ''price'' rp))"

section \<open>\<^verbatim>\<open>DrinkStorage\<close>\<close>

record storage =
  data_file :: string
  drinks :: json
  next_id :: json

text \<open>
  The file system, as far as the store sees it: a path holds nothing, a document that
  \<^verbatim>\<open>json.load\<close> parses to a value, or something that cannot be opened or parsed.
  \<^verbatim>\<open>json.dump\<close> followed by \<^verbatim>\<open>json.load\<close> gives the value back; that contract of the
  library is built into \<open>Doc\<close>. The console records the two messages the store prints.
\<close>

datatype path_content = Doc json | Unreadable

datatype message = Error_loading | Error_saving

record world =
  files :: "string \<Rightarrow> path_content option"
  console :: "message list"

text \<open>
  What the environment does to one write: it completes; \<^verbatim>\<open>open\<close> raises and the path is
  left as it was; or \<^verbatim>\<open>open\<close> has truncated the file and the write stops part-way,
  leaving text that does not parse.
\<close>

datatype write_outcome = Write_ok | Open_fails | Dump_fails

definition document :: "storage \<Rightarrow> json" where
  "document self = JObj [(''drinks'', drinks self), (''next_id'', next_id self)]"

definition save_data :: "write_outcome \<Rightarrow> storage \<Rightarrow> world \<Rightarrow> world" where
  "save_data w self env =
     (case w of
        Write_ok \<Rightarrow> env\<lparr>files := (files env)(data_file self \<mapsto> Doc (document self))\<rparr>
      | Open_fails \<Rightarrow> env\<lparr>console := console env @ [Error_saving]\<rparr>
      | Dump_fails \<Rightarrow>
          env\<lparr>files := (files env)(data_file self \<mapsto> Unreadable),
              console := console env @ [Error_saving]\<rparr>)"

definition drink :: "int \<Rightarrow> string \<Rightarrow> string \<Rightarrow> rat \<Rightarrow> json" where
  "drink i n s p =
     JObj [(''id'', JInt i), (''name'', JStr n), (''size'', JStr s), (''price'', JFloat (Finite p))]"

definition init_default_data :: "write_outcome \<Rightarrow> storage \<Rightarrow> world \<Rightarrow> storage \<times> world" where
  "init_default_data w self env =
     (let self' =
        (if startswith (data_file self) ''test_''
         then self\<lparr>drinks := JArr [drink 1 ''Test Espresso'' ''S'' 2,
                                    drink 2 ''Test Latte'' ''M'' 3],
                   next_id := JInt 3\<rparr>
         else self\<lparr>drinks := JArr [drink 1 ''Espresso'' ''S'' (5 / 2),
                                    drink 2 ''Latte'' ''M'' (7 / 2),
                                    drink 3 ''Cappuccino'' ''M'' 3,
                                    drink 4 ''Americano'' ''L'' (14 / 5)],
                   next_id := JInt 5\<rparr>)
      in (self', save_data w self' env))"

text \<open>
  \<^verbatim>\<open>load_data\<close>: the \<^verbatim>\<open>try\<close> block covers \<^verbatim>\<open>open\<close>, \<^verbatim>\<open>json.load\<close> and both
  \<^verbatim>\<open>data.get\<close> calls, so a document that is not an object (\<^verbatim>\<open>.get\<close> raises
  \<^verbatim>\<open>AttributeError\<close> before anything is assigned) ends in the handler like a file that
  does not parse.
\<close>

definition load_data :: "write_outcome \<Rightarrow> storage \<Rightarrow> world \<Rightarrow> storage \<times> world" where
  "load_data w self env =
     (case files env (data_file self) of
        None \<Rightarrow> init_default_data w self env
      | Some Unreadable \<Rightarrow>
          init_default_data w self (env\<lparr>console := console env @ [Error_loading]\<rparr>)
      | Some (Doc data) \<Rightarrow>
          (case data of
             JObj kvs \<Rightarrow>
               (self\<lparr>drinks := dict_get kvs ''drinks'' (JArr []),
                      next_id := dict_get kvs ''next_id'' (JInt 1)\<rparr>, env)
           | _ \<Rightarrow> init_default_data w self (env\<lparr>console := console env @ [Error_loading]\<rparr>)))"

text \<open>\<^verbatim>\<open>DrinkStorage.__init__\<close>.\<close>

definition DrinkStorage :: "write_outcome \<Rightarrow> string \<Rightarrow> world \<Rightarrow> storage \<times> world" where
  "DrinkStorage w path env =
     load_data w \<lparr>data_file = path, drinks = JArr [], next_id = JInt 1\<rparr> env"

definition get_all_drinks :: "storage \<Rightarrow> json" where
  "get_all_drinks self = drinks self"

text \<open>Iterating a value in a \<^verbatim>\<open>for\<close>: a list gives its items, a dict its keys, a string
  its characters; anything else is not iterable.\<close>

fun py_iter :: "json \<Rightarrow> pyerror + json list" where
  "py_iter (JArr xs) = Inr xs"
| "py_iter (JObj kvs) = Inr (map (\<lambda>kv. JStr (fst kv)) kvs)"
| "py_iter (JStr s) = Inr (map (\<lambda>c. JStr [c]) s)"
| "py_iter JNull = Inl TypeError"
| "py_iter (JBool b) = Inl TypeError"
| "py_iter (JInt i) = Inl TypeError"
| "py_iter (JFloat f) = Inl TypeError"

text \<open>\<^verbatim>\<open>drink["name"].lower()\<close>.\<close>

fun name_lower :: "json \<Rightarrow> pyerror + string" where
  "name_lower (JObj kvs) =
     (case map_of kvs ''name'' of
        None \<Rightarrow> Inl KeyError
      | Some (JStr s) \<Rightarrow> Inr (str_lower s)
      | Some _ \<Rightarrow> Inl AttributeError)"
| "name_lower JNull = Inl TypeError"
| "name_lower (JBool b) = Inl TypeError"
| "name_lower (JInt i) = Inl TypeError"
| "name_lower (JFloat f) = Inl TypeError"
| "name_lower (JStr s) = Inl TypeError"
| "name_lower (JArr xs) = Inl TypeError"

text \<open>The list comprehension of \<^verbatim>\<open>get_drink_by_name\<close>: the first item that raises ends it.\<close>

fun comprehension :: "string \<Rightarrow> json list \<Rightarrow> pyerror + json list" where
  "comprehension q [] = Inr []"
| "comprehension q (d # ds) =
     (case name_lower d of
        Inl e \<Rightarrow> Inl e
      | Inr n \<Rightarrow>
          (case comprehension q ds of
             Inl e \<Rightarrow> Inl e
           | Inr r \<Rightarrow> Inr (if n = str_lower q then d # r else r)))"

definition get_drink_by_name :: "storage \<Rightarrow> string \<Rightarrow> pyerror + json list" where
  "get_drink_by_name self q =
     (case py_iter (drinks self) of Inl e \<Rightarrow> Inl e | Inr ds \<Rightarrow> comprehension q ds)"

text \<open>\<^verbatim>\<open>x += 1\<close>: \<^verbatim>\<open>True\<close> and \<^verbatim>\<open>False\<close> count as 1 and 0.\<close>

fun py_add_1 :: "json \<Rightarrow> pyerror + json" where
  "py_add_1 (JInt i) = Inr (JInt (i + 1))"
| "py_add_1 (JBool b) = Inr (JInt ((if b then 1 else 0) + 1))"
| "py_add_1 (JFloat f) = Inr (JFloat (float_add1 f))"
| "py_add_1 JNull = Inl TypeError"
| "py_add_1 (JStr s) = Inl TypeError"
| "py_add_1 (JArr xs) = Inl TypeError"
| "py_add_1 (JObj kvs) = Inl TypeError"

definition new_drink :: "storage \<Rightarrow> drink_create \<Rightarrow> json" where
  "new_drink self d =
     JObj [(''id'', next_id self), (''name'', JStr (name d)),
           (''size'', JStr (drink_size d)), (''price'', JFloat (price d))]"

text \<open>
  \<^verbatim>\<open>add_drink\<close>. Only a list has \<^verbatim>\<open>append\<close>. When the increment raises, the record is
  already in the list, so the error comes with the state it leaves behind.
\<close>

definition add_drink ::
  "write_outcome \<Rightarrow> drink_create \<Rightarrow> storage \<Rightarrow> world \<Rightarrow>
     (pyerror \<times> storage) + (json \<times> storage \<times> world)" where
  "add_drink w d self env =
     (case drinks self of
        JArr ds \<Rightarrow>
          (let self1 = self\<lparr>drinks := JArr (ds @ [new_drink self d])\<rparr> in
           case py_add_1 (next_id self1) of
             Inl e \<Rightarrow> Inl (e, self1)
           | Inr n \<Rightarrow>
               (let self2 = self1\<lparr>next_id := n\<rparr>
                in Inr (new_drink self d, self2, save_data w self2 env)))
      | _ \<Rightarrow> Inl (AttributeError, self))"

text \<open>A run of \<^verbatim>\<open>add_drink\<close> calls on one store, each with the outcome of its write.\<close>

fun add_drinks ::
  "(write_outcome \<times> drink_create) list \<Rightarrow> storage \<Rightarrow> world \<Rightarrow>
     (pyerror \<times> storage) + (storage \<times> world)" where
  "add_drinks [] self env = Inr (self, env)"
| "add_drinks ((w, d) # rest) self env =
     (case add_drink w d self env of
        Inl e \<Rightarrow> Inl e
      | Inr (r, self', env') \<Rightarrow> add_drinks rest self' env')"

section \<open>Properties of records and stores\<close>

text \<open>
  The \<^verbatim>\<open>name\<close> and \<^verbatim>\<open>id\<close> of a record, when it is an object that has them with the
  right type, and the ids of a store in stored order.
\<close>

fun name_field :: "json \<Rightarrow> string option" where
  "name_field (JObj kvs) = (case map_of kvs ''name'' of Some (JStr s) \<Rightarrow> Some s | _ \<Rightarrow> None)"
| "name_field _ = None"

fun id_field :: "json \<Rightarrow> int option" where
  "id_field (JObj kvs) = (case map_of kvs ''id'' of Some (JInt i) \<Rightarrow> Some i | _ \<Rightarrow> None)"
| "id_field _ = None"

definition has_name :: "json \<Rightarrow> bool" where
  "has_name d = (name_field d \<noteq> None)"

definition ids :: "storage \<Rightarrow> int option list" where
  "ids self = (case drinks self of JArr ds \<Rightarrow> map id_field ds | _ \<Rightarrow> [])"

text \<open>
  The comparison \<^verbatim>\<open>get_drink_by_name\<close> makes: the two names are equal once both are
  lowercased.
\<close>

definition matches_ignoring_case :: "string \<Rightarrow> json \<Rightarrow> bool" where
  "matches_ignoring_case q d =
     (case name_field d of Some s \<Rightarrow> str_lower s = str_lower q | None \<Rightarrow> False)"

text \<open>
  Equality of names up to case, stated without \<open>str_lower\<close>. The capital letters are
  A to Z and, above the ASCII range, the code points 192 to 222 without the multiplication
  sign 215; the small letter of a capital is 32 code points above it. Two characters are
  case variants when they are equal or one is the small letter of the other; two strings
  are equal up to case when they have the same length and their characters are case
  variants position by position.
\<close>

definition is_capital :: "char \<Rightarrow> bool" where
  "is_capital c =
     (let n = (of_char c :: nat)
      in (65 \<le> n \<and> n \<le> 90) \<or> (192 \<le> n \<and> n \<le> 222 \<and> n \<noteq> 215))"

definition case_variants :: "char \<Rightarrow> char \<Rightarrow> bool" where
  "case_variants a b =
     (a = b \<or> (is_capital a \<and> (of_char b :: nat) = of_char a + 32)
            \<or> (is_capital b \<and> (of_char a :: nat) = of_char b + 32))"

definition equal_ignoring_case :: "string \<Rightarrow> string \<Rightarrow> bool" where
  "equal_ignoring_case s t = list_all2 case_variants s t"

definition name_equals_ignoring_case :: "string \<Rightarrow> json \<Rightarrow> bool" where
  "name_equals_ignoring_case q d =
     (case name_field d of Some s \<Rightarrow> equal_ignoring_case s q | None \<Rightarrow> False)"

text \<open>
  The rule of the store document: the counter is an integer above the id of every
  record. The stricter rule adds that ids are positive and pairwise distinct.
\<close>

definition next_id_above_ids :: "storage \<Rightarrow> bool" where
  "next_id_above_ids self =
     (case drinks self of
        JArr ds \<Rightarrow>
          (case next_id self of
             JInt n \<Rightarrow> list_all (\<lambda>i. case i of Some k \<Rightarrow> k < n | None \<Rightarrow> False) (map id_field ds)
           | _ \<Rightarrow> False)
      | _ \<Rightarrow> False)"

definition valid_ids :: "storage \<Rightarrow> bool" where
  "valid_ids self =
     (next_id_above_ids self \<and> distinct (ids self)
      \<and> list_all (\<lambda>i. case i of Some k \<Rightarrow> 0 < k | None \<Rightarrow> False) (ids self))"

definition nonempty_records :: "storage \<Rightarrow> bool" where
  "nonempty_records self = (case drinks self of JArr ds \<Rightarrow> ds \<noteq> [] | _ \<Rightarrow> False)"

text \<open>
  \<^verbatim>\<open>load_data\<close> takes its state from the path exactly when the path holds a document
  that is an object; in every other case it ends in \<^verbatim>\<open>_init_default_data\<close>.
\<close>

definition loads_document :: "world \<Rightarrow> string \<Rightarrow> bool" where
  "loads_document env path =
     (case files env path of Some (Doc (JObj kvs)) \<Rightarrow> True | _ \<Rightarrow> False)"

text \<open>
What a call returned and the world it left, when it did not raise.
\<close>

definition returned :: "'e + ('r \<times> 's \<times> 'w) \<Rightarrow> 'r option" where
  "returned x = (case x of Inl e \<Rightarrow> None | Inr (r, s, w) \<Rightarrow> Some r)"

definition world_after :: "'e + ('r \<times> 's \<times> 'w) \<Rightarrow> 'w option" where
  "world_after x = (case x of Inl e \<Rightarrow> None | Inr (r, s, w) \<Rightarrow> Some w)"

section \<open>Seed catalogues and example data\<close>

text \<open>
The two lists written out in \<^verbatim>\<open>_init_default_data\<close>.
\<close>

definition test_seed :: "json list" where
  "test_seed = [drink 1 ''Test Espresso'' ''S'' 2, drink 2 ''Test Latte'' ''M'' 3]"

definition app_seed :: "json list" where
  "app_seed = [drink 1 ''Espresso'' ''S'' (5 / 2), drink 2 ''Latte'' ''M'' (7 / 2),
               drink 3 ''Cappuccino'' ''M'' 3, drink 4 ''Americano'' ''L'' (14 / 5)]"

definition no_files :: world where
  "no_files = \<lparr>files = (\<lambda>p. None), console = []\<rparr>"

definition one_file :: "string \<Rightarrow> json \<Rightarrow> world" where
  "one_file path doc = \<lparr>files = (\<lambda>p. if p = path then Some (Doc doc) else None), console = []\<rparr>"

definition garbled_file :: world where
  "garbled_file = \<lparr>files = (\<lambda>p. if p = ''drinks.json'' then Some Unreadable else None),
                    console = []\<rparr>"

text \<open>
  A first start: nothing at \<^verbatim>\<open>drinks.json\<close> and the write succeeds. \<open>menu\<close> is the
  store it gives and \<open>disk\<close> the world it leaves.
\<close>

definition menu :: storage where
  "menu = fst (DrinkStorage Write_ok ''drinks.json'' no_files)"

definition disk :: world where
  "disk = snd (DrinkStorage Write_ok ''drinks.json'' no_files)"

definition mocha :: drink_create where
  "mocha = \<lparr>name = ''Mocha'', drink_size = ''L'', price = Finite 4\<rparr>"

text \<open>
  Documents that parse and that no store wrote: one with records and no counter, one
  whose records break every field rule.
\<close>

definition stale_counter :: world where
  "stale_counter =
     one_file ''drinks.json'' (JObj [(''drinks'', JArr [drink 1 ''Espresso'' ''S'' (5 / 2)])])"

definition unchecked_records :: "json list" where
  "unchecked_records =
     [JObj [(''id'', JInt 0), (''name'', JStr []), (''size'', JStr ''XL''),
            (''price'', JFloat (Finite (- 1)))],
      JObj [(''id'', JInt 0), (''name'', JStr ''Flat White''), (''size'', JStr ''M''),
            (''price'', JInt 0)]]"

definition unchecked_file :: world where
  "unchecked_file =
     one_file ''drinks.json'' (JObj [(''drinks'', JArr unchecked_records), (''next_id'', JInt 0)])"

text \<open>
  Documents that parse and from which the store cannot serve: one whose record has no
  name, one that is a list and not an object.
\<close>

definition nameless_file :: world where
  "nameless_file =
     one_file ''drinks.json''
       (JObj [(''drinks'', JArr [JObj [(''id'', JInt 1)]]), (''next_id'', JInt 2)])"

definition array_file :: world where
  "array_file = one_file ''drinks.json'' (JArr [JInt 1, JInt 2])"

text \<open>
  The store saved and reloaded by \<^verbatim>\<open>test_drink_storage_load_save_data\<close>.
\<close>

definition test_drink :: storage where
  "test_drink = \<lparr>data_file = ''test_storage_load_save.json'',
                  drinks = JArr [drink 10 ''TestDrink'' ''S'' 1], next_id = JInt 11\<rparr>"

section \<open>Auxiliary facts\<close>

lemma name_lower_name_field:
  "name_field d = Some s \<Longrightarrow> name_lower d = Inr (str_lower s)"
  by (cases d) (auto split: option.splits json.splits)

lemma comprehension_filter:
  "list_all has_name ds \<Longrightarrow> comprehension q ds = Inr (filter (matches_ignoring_case q) ds)"
proof (induction ds)
  case Nil
  show ?case by simp
next
  case (Cons d ds)
  from Cons.prems obtain s where s: "name_field d = Some s"
    by (auto simp: has_name_def)
  from Cons have "comprehension q ds = Inr (filter (matches_ignoring_case q) ds)"
    by simp
  moreover from s have "matches_ignoring_case q d = (str_lower s = str_lower q)"
    by (simp add: matches_ignoring_case_def)
  ultimately show ?case using s
    by (simp add: name_lower_name_field)
qed

lemma name_lower_raises:
  "name_field d = None \<Longrightarrow> \<exists>e. name_lower d = Inl e"
  by (cases d) (auto split: option.splits json.splits)

lemma comprehension_raises:
  "\<not> list_all has_name ds \<Longrightarrow> \<exists>e. comprehension q ds = Inl e"
proof (induction ds)
  case Nil
  then show ?case by simp
next
  case (Cons d ds)
  show ?case
  proof (cases "name_field d")
    case None
    from name_lower_raises [OF this] show ?thesis by auto
  next
    case (Some s)
    then have "has_name d" by (simp add: has_name_def)
    with Cons.prems have "\<not> list_all has_name ds" by simp
    from Cons.IH [OF this] obtain e where "comprehension q ds = Inl e" by blast
    with Some show ?thesis by (simp add: name_lower_name_field)
  qed
qed

text \<open>Lowercasing identifies exactly the case variants.\<close>

lemma lower_char_code:
  "(of_char (lower_char c) :: nat) = (if is_capital c then of_char c + 32 else of_char c)"
  by (simp add: lower_char_def is_capital_def Let_def)

lemma lower_char_eq_iff: "lower_char a = lower_char b \<longleftrightarrow> case_variants a b"
proof -
  have "lower_char a = lower_char b \<longleftrightarrow>
          (of_char (lower_char a) :: nat) = of_char (lower_char b)"
    by simp
  also have "\<dots> \<longleftrightarrow> case_variants a b"
  proof -
    have ab: "a = b \<longleftrightarrow> (of_char a :: nat) = of_char b" by simp
    show ?thesis
      unfolding lower_char_code case_variants_def ab
      by (auto simp: is_capital_def Let_def)
  qed
  finally show ?thesis .
qed

lemma str_lower_eq_iff: "str_lower s = str_lower t \<longleftrightarrow> equal_ignoring_case s t"
proof (induction s arbitrary: t)
  case Nil
  show ?case by (simp add: str_lower_def equal_ignoring_case_def)
next
  case (Cons a s)
  then show ?case
    by (cases t) (simp_all add: str_lower_def equal_ignoring_case_def lower_char_eq_iff)
qed

lemma matches_ignoring_case_iff:
  "matches_ignoring_case q d = name_equals_ignoring_case q d"
  by (simp add: matches_ignoring_case_def name_equals_ignoring_case_def str_lower_eq_iff
      split: option.splits)

lemma filter_names:
  "filter (matches_ignoring_case q) ds = filter (name_equals_ignoring_case q) ds"
  by (rule filter_cong) (simp_all add: matches_ignoring_case_iff)

lemma new_drink_fields:
  "next_id s = JInt n \<Longrightarrow> id_field (new_drink s d) = Some n"
  "name_field (new_drink s d) = Some (name d)"
  by (simp_all add: new_drink_def)

lemma add_drink_step:
  assumes "drinks s = JArr ds" and "next_id s = JInt n"
  shows "add_drink w d s e =
           Inr (new_drink s d, s\<lparr>drinks := JArr (ds @ [new_drink s d]), next_id := JInt (n + 1)\<rparr>,
                save_data w (s\<lparr>drinks := JArr (ds @ [new_drink s d]), next_id := JInt (n + 1)\<rparr>) e)"
  using assms by (simp add: add_drink_def Let_def)

lemma add_drink_Inr:
  assumes "add_drink w d s e = Inr (r, s', e')" and "drinks s = JArr ds"
  shows "r = new_drink s d" and "drinks s' = JArr (ds @ [new_drink s d])"
    and "e' = save_data w s' e"
  using assms by (auto simp: add_drink_def Let_def split: sum.splits)

lemma add_drinks_appends:
  assumes "drinks s = JArr ds" and "next_id s = JInt n"
  shows "\<exists>s' e' news. add_drinks steps s e = Inr (s', e')
           \<and> data_file s' = data_file s
           \<and> drinks s' = JArr (ds @ news)
           \<and> next_id s' = JInt (n + int (length steps))
           \<and> map id_field news = map Some [n .. n + int (length steps) - 1]
           \<and> list_all has_name news"
  using assms
proof (induction steps arbitrary: s ds n e)
  case Nil
  then show ?case by simp
next
  case (Cons step rest)
  obtain w d where step: "step = (w, d)" by (cases step)
  let ?s1 = "s\<lparr>drinks := JArr (ds @ [new_drink s d]), next_id := JInt (n + 1)\<rparr>"
  let ?e1 = "save_data w ?s1 e"
  have one: "add_drink w d s e = Inr (new_drink s d, ?s1, ?e1)"
    using Cons.prems by (rule add_drink_step)
  have "drinks ?s1 = JArr (ds @ [new_drink s d])" and "next_id ?s1 = JInt (n + 1)"
    by simp_all
  from Cons.IH [OF this, of ?e1]
  obtain s' e' news where rest:
    "add_drinks rest ?s1 ?e1 = Inr (s', e')"
    "data_file s' = data_file ?s1"
    "drinks s' = JArr ((ds @ [new_drink s d]) @ news)"
    "next_id s' = JInt (n + 1 + int (length rest))"
    "map id_field news = map Some [n + 1 .. n + 1 + int (length rest) - 1]"
    "list_all has_name news"
    by blast
  have upto: "[n .. n + int (length (step # rest)) - 1] = n # [n + 1 .. n + 1 + int (length rest) - 1]"
    by (subst upto_rec1) (simp_all add: add.commute add.left_commute)
  have "add_drinks (step # rest) s e = Inr (s', e')"
    using one rest(1) step by simp
  moreover have "drinks s' = JArr (ds @ (new_drink s d # news))"
    using rest(3) by simp
  moreover have "map id_field (new_drink s d # news) = map Some [n .. n + int (length (step # rest)) - 1]"
    using rest(5) new_drink_fields(1) [OF Cons.prems(2)] upto by simp
  moreover have "list_all has_name (new_drink s d # news)"
    using rest(6) by (simp add: has_name_def new_drink_fields(2))
  moreover have "next_id s' = JInt (n + int (length (step # rest)))"
    using rest(4) by (simp add: add.commute add.left_commute)
  moreover have "data_file s' = data_file s"
    using rest(2) by simp
  ultimately show ?case by blast
qed

lemma add_drinks_keeps_records:
  assumes "add_drinks steps s e = Inr (s', e')" and "drinks s = JArr ds"
  shows "\<exists>news. drinks s' = JArr (ds @ news) \<and> list_all has_name news"
  using assms
proof (induction steps arbitrary: s e ds)
  case Nil
  then show ?case by simp
next
  case (Cons step rest)
  obtain w d where step: "step = (w, d)" by (cases step)
  from Cons.prems(1) step obtain r s1 e1 where
    one: "add_drink w d s e = Inr (r, s1, e1)" and more: "add_drinks rest s1 e1 = Inr (s', e')"
    by (auto split: sum.splits)
  from add_drink_Inr(2) [OF one Cons.prems(2)]
  have s1: "drinks s1 = JArr (ds @ [new_drink s d])" .
  from Cons.IH [OF more s1] obtain news where
    "drinks s' = JArr ((ds @ [new_drink s d]) @ news)" and "list_all has_name news"
    by blast
  then have "drinks s' = JArr (ds @ (new_drink s d # news))"
    and "list_all has_name (new_drink s d # news)"
    by (simp_all add: has_name_def new_drink_fields(2))
  then show ?case by blast
qed

lemma init_default_data_eq:
  "init_default_data w self env =
     (self\<lparr>drinks := JArr (if startswith (data_file self) ''test_'' then test_seed else app_seed),
           next_id := JInt (if startswith (data_file self) ''test_'' then 3 else 5)\<rparr>,
      save_data w
        (self\<lparr>drinks := JArr (if startswith (data_file self) ''test_'' then test_seed else app_seed),
              next_id := JInt (if startswith (data_file self) ''test_'' then 3 else 5)\<rparr>) env)"
  by (simp add: init_default_data_def test_seed_def app_seed_def Let_def)

lemma load_data_seeds:
  assumes "\<not> loads_document env (data_file self)"
  shows "load_data w self env =
           init_default_data w self
             (if files env (data_file self) = None then env
              else env\<lparr>console := console env @ [Error_loading]\<rparr>)"
proof (cases "files env (data_file self)")
  case None
  then show ?thesis by (simp add: load_data_def)
next
  case (Some c)
  show ?thesis
  proof (cases c)
    case Unreadable
    with Some show ?thesis by (simp add: load_data_def)
  next
    case (Doc data)
    with Some assms have "\<And>kvs. data \<noteq> JObj kvs"
      by (auto simp: loads_document_def)
    with Some Doc show ?thesis
      by (cases data) (auto simp: load_data_def)
  qed
qed

lemma DrinkStorage_seeds:
  assumes "\<not> loads_document env path"
  shows "fst (DrinkStorage w path env) =
           \<lparr>data_file = path,
            drinks = JArr (if startswith path ''test_'' then test_seed else app_seed),
            next_id = JInt (if startswith path ''test_'' then 3 else 5)\<rparr>"
    and "files (snd (DrinkStorage Write_ok path env)) path =
           Some (Doc (document (fst (DrinkStorage Write_ok path env))))"
    and "files (snd (DrinkStorage Open_fails path env)) = files env"
proof -
  let ?self = "\<lparr>data_file = path, drinks = JArr [], next_id = JInt 1\<rparr>"
  let ?env0 = "if files env (data_file ?self) = None then env
              else env\<lparr>console := console env @ [Error_loading]\<rparr>"
  from assms have "\<not> loads_document env (data_file ?self)" by simp
  from load_data_seeds [OF this]
  have l: "\<And>w. load_data w ?self env = init_default_data w ?self ?env0" .
  have f: "files ?env0 = files env" by simp
  show "fst (DrinkStorage w path env) =
           \<lparr>data_file = path,
            drinks = JArr (if startswith path ''test_'' then test_seed else app_seed),
            next_id = JInt (if startswith path ''test_'' then 3 else 5)\<rparr>"
    by (simp add: DrinkStorage_def l init_default_data_eq)
  show "files (snd (DrinkStorage Write_ok path env)) path =
           Some (Doc (document (fst (DrinkStorage Write_ok path env))))"
    by (simp add: DrinkStorage_def l init_default_data_eq save_data_def)
  show "files (snd (DrinkStorage Open_fails path env)) = files env"
    by (simp add: DrinkStorage_def l init_default_data_eq save_data_def f)
qed

lemma DrinkStorage_loads:
  assumes "files env path = Some (Doc (JObj kvs))"
  shows "DrinkStorage w path env =
           (\<lparr>data_file = path, drinks = dict_get kvs ''drinks'' (JArr []),
             next_id = dict_get kvs ''next_id'' (JInt 1)\<rparr>, env)"
  using assms by (simp add: DrinkStorage_def load_data_def)

lemma seeds_valid:
  "map id_field test_seed = map Some [1 .. 2]" "map id_field app_seed = map Some [1 .. 4]"
  by (simp_all add: test_seed_def app_seed_def drink_def upto_rec1)

lemma seed_names: "list_all has_name app_seed" "list_all has_name test_seed"
  by (simp_all add: app_seed_def test_seed_def drink_def has_name_def)

lemma next_id_above_idsI:
  assumes "drinks s = JArr ds" and "next_id s = JInt n"
    and "\<forall>i \<in> set (map id_field ds). \<exists>k. i = Some k \<and> k < n"
  shows "next_id_above_ids s"
  using assms by (auto simp: next_id_above_ids_def list_all_iff)

lemma next_id_above_idsD:
  assumes "next_id_above_ids s"
  shows "\<exists>ds n. drinks s = JArr ds \<and> next_id s = JInt n
           \<and> (\<forall>i \<in> set (map id_field ds). \<exists>k. i = Some k \<and> k < n)"
proof -
  from assms obtain ds where ds: "drinks s = JArr ds"
    by (cases "drinks s") (simp_all add: next_id_above_ids_def)
  from assms ds obtain n where n: "next_id s = JInt n"
    by (cases "next_id s") (simp_all add: next_id_above_ids_def)
  from assms ds n have "\<forall>i \<in> set (map id_field ds). \<exists>k. i = Some k \<and> k < n"
    by (auto simp: next_id_above_ids_def list_all_iff split: option.splits)
  with ds n show ?thesis by blast
qed

lemma add_drinks_keep_invariant:
  assumes "next_id_above_ids s"
  shows "\<exists>s' e' n. next_id s = JInt n
           \<and> add_drinks steps s e = Inr (s', e')
           \<and> next_id_above_ids s'
           \<and> next_id s' = JInt (n + int (length steps))
           \<and> ids s' = ids s @ map Some [n .. n + int (length steps) - 1]"
proof -
  from next_id_above_idsD [OF assms] obtain ds n where
    ds: "drinks s = JArr ds" and n: "next_id s = JInt n"
    and old: "\<forall>i \<in> set (map id_field ds). \<exists>k. i = Some k \<and> k < n"
    by blast
  from add_drinks_appends [OF ds n, of steps e] obtain s' e' news where
    run: "add_drinks steps s e = Inr (s', e')"
    and ds': "drinks s' = JArr (ds @ news)"
    and n': "next_id s' = JInt (n + int (length steps))"
    and new: "map id_field news = map Some [n .. n + int (length steps) - 1]"
    by blast
  have "\<forall>i \<in> set (map id_field (ds @ news)). \<exists>k. i = Some k \<and> k < n + int (length steps)"
  proof
    fix i assume "i \<in> set (map id_field (ds @ news))"
    then consider "i \<in> set (map id_field ds)" | "i \<in> set (map id_field news)" by auto
    then show "\<exists>k. i = Some k \<and> k < n + int (length steps)"
    proof cases
      case 1
      with old obtain k where "i = Some k" "k < n" by blast
      then show ?thesis by auto
    next
      case 2
      with new have "i \<in> set (map Some [n .. n + int (length steps) - 1])" by simp
      then show ?thesis by auto
    qed
  qed
  from next_id_above_idsI [OF ds' n' this] have "next_id_above_ids s'" .
  moreover have "ids s' = ids s @ map Some [n .. n + int (length steps) - 1]"
    using ds ds' new by (simp add: ids_def)
  ultimately show ?thesis using n run n' by blast
qed

lemma seeded_invariant:
  assumes "\<not> loads_document env path"
  shows "next_id_above_ids (fst (DrinkStorage w path env))"
  by (simp add: DrinkStorage_seeds(1) [OF assms] next_id_above_ids_def seeds_valid upto_rec1)

text \<open>
Facts about the example data.
\<close>

lemma menu_eq:
  "menu = \<lparr>data_file = ''drinks.json'',
           drinks = JArr [drink 1 ''Espresso'' ''S'' (5 / 2), drink 2 ''Latte'' ''M'' (7 / 2),
                          drink 3 ''Cappuccino'' ''M'' 3, drink 4 ''Americano'' ''L'' (14 / 5)],
           next_id = JInt 5\<rparr>"
  by (simp add: menu_def DrinkStorage_def load_data_def no_files_def init_default_data_def
      startswith_def Let_def)

lemma menu_app_seed:
  "menu = \<lparr>data_file = ''drinks.json'', drinks = JArr app_seed, next_id = JInt 5\<rparr>"
  by (simp add: menu_eq app_seed_def)

lemma disk_files:
  "files disk ''drinks.json'' = Some (Doc (JObj [(''drinks'', JArr app_seed), (''next_id'', JInt 5)]))"
  by (simp add: disk_def DrinkStorage_def load_data_def no_files_def init_default_data_eq
      startswith_def save_data_def document_def)

lemma disk_console: "console disk = []"
  by (simp add: disk_def DrinkStorage_def load_data_def no_files_def init_default_data_eq
      startswith_def save_data_def document_def)

lemma not_loads:
  "\<not> loads_document no_files path" "\<not> loads_document garbled_file ''drinks.json''"
  by (simp_all add: loads_document_def no_files_def garbled_file_def)

lemma disk_loads: "loads_document disk ''drinks.json''"
  by (simp add: loads_document_def disk_files)

lemma reopened_menu: "fst (DrinkStorage Write_ok ''drinks.json'' disk) = menu"
  by (simp add: DrinkStorage_loads [OF disk_files] dict_get_def menu_app_seed)

lemma menu_invariant: "next_id_above_ids menu"
  by (simp add: menu_app_seed next_id_above_ids_def seeds_valid upto_rec1)

lemma stale_counter_loaded:
  "DrinkStorage Write_ok ''drinks.json'' stale_counter =
     (\<lparr>data_file = ''drinks.json'', drinks = JArr [drink 1 ''Espresso'' ''S'' (5 / 2)],
       next_id = JInt 1\<rparr>, stale_counter)"
  by (simp add: DrinkStorage_def load_data_def stale_counter_def one_file_def dict_get_def)



lemma mocha_lower: "str_lower ''MOCHA'' = str_lower (name mocha)"
  by code_simp

lemma unchecked_queries:
  "filter (name_equals_ignoring_case []) unchecked_records =
     [JObj [(''id'', JInt 0), (''name'', JStr []), (''size'', JStr ''XL''),
            (''price'', JFloat (Finite (- 1)))]]"
  "filter (name_equals_ignoring_case ''flat white'') unchecked_records =
     [JObj [(''id'', JInt 0), (''name'', JStr ''Flat White''), (''size'', JStr ''M''),
            (''price'', JInt 0)]]"
  "list_all has_name unchecked_records"
  by code_simp+

section \<open>Adding a drink\<close>

text \<open>
  C1. On a store whose records are a list and whose counter is the integer \<open>n\<close>,
  \<^verbatim>\<open>add_drink\<close> with any creation input returns the record built from the input with
  \<^verbatim>\<open>id\<close> \<open>n\<close>, leaves the store with that record appended at the end of the list and
  with the counter \<open>n + 1\<close>, and hands exactly that state to \<^verbatim>\<open>save_data\<close>.
\<close>

theorem add_drink_assigns_next_id:
  assumes "drinks self = JArr ds" and "next_id self = JInt n"
  shows "add_drink w d self env =
           Inr (JObj [(''id'', JInt n), (''name'', JStr (name d)),
                      (''size'', JStr (drink_size d)), (''price'', JFloat (price d))],
                self\<lparr>drinks := JArr (ds @ [JObj [(''id'', JInt n), (''name'', JStr (name d)),
                        (''size'', JStr (drink_size d)), (''price'', JFloat (price d))]]),
                      next_id := JInt (n + 1)\<rparr>,
                save_data w
                  (self\<lparr>drinks := JArr (ds @ [JObj [(''id'', JInt n), (''name'', JStr (name d)),
                          (''size'', JStr (drink_size d)), (''price'', JFloat (price d))]]),
                        next_id := JInt (n + 1)\<rparr>) env)"
  using assms by (simp add: add_drink_def new_drink_def Let_def)

text \<open>
The scenario of the specification: Mocha added to the seeded menu gets id 5.
\<close>

theorem add_drink_assigns_next_id_witness:
  "drinks menu = JArr [drink 1 ''Espresso'' ''S'' (5 / 2), drink 2 ''Latte'' ''M'' (7 / 2),
                       drink 3 ''Cappuccino'' ''M'' 3, drink 4 ''Americano'' ''L'' (14 / 5)]
   \<and> next_id menu = JInt 5
   \<and> (case add_drink Write_ok mocha menu no_files of
        Inl e \<Rightarrow> False
      | Inr (r, self', env') \<Rightarrow>
          r = drink 5 ''Mocha'' ''L'' 4 \<and> next_id self' = JInt 6
          \<and> drinks self' =
              JArr [drink 1 ''Espresso'' ''S'' (5 / 2), drink 2 ''Latte'' ''M'' (7 / 2),
                    drink 3 ''Cappuccino'' ''M'' 3, drink 4 ''Americano'' ''L'' (14 / 5),
                    drink 5 ''Mocha'' ''L'' 4]
          \<and> files env' ''drinks.json'' = Some (Doc (document self')))"
  using add_drink_assigns_next_id
    [of menu "[drink 1 ''Espresso'' ''S'' (5 / 2), drink 2 ''Latte'' ''M'' (7 / 2),
               drink 3 ''Cappuccino'' ''M'' 3, drink 4 ''Americano'' ''L'' (14 / 5)]"
        5 Write_ok mocha no_files]
  by (simp add: menu_eq mocha_def drink_def save_data_def)

text \<open>
  C3. When the write does not complete, \<^verbatim>\<open>add_drink\<close> does not raise: \<^verbatim>\<open>save_data\<close>
  catches the error and prints a message, and \<^verbatim>\<open>add_drink\<close> returns the new record with
  the append and the increment in place.
\<close>

theorem add_drink_returns_when_write_fails:
  assumes "drinks self = JArr ds" and "next_id self = JInt n" and "w \<noteq> Write_ok"
  shows "\<exists>self' env'. add_drink w d self env = Inr (new_drink self d, self', env')
           \<and> drinks self' = JArr (ds @ [new_drink self d])
           \<and> next_id self' = JInt (n + 1)
           \<and> console env' = console env @ [Error_saving]"
  using assms by (cases w) (simp_all add: add_drink_step save_data_def)

theorem add_drink_returns_when_write_fails_witness:
  "drinks menu = JArr app_seed \<and> next_id menu = JInt 5 \<and> Open_fails \<noteq> Write_ok
   \<and> (\<exists>self' env'. add_drink Open_fails mocha menu disk = Inr (drink 5 ''Mocha'' ''L'' 4, self', env')
         \<and> drinks self' = JArr (app_seed @ [drink 5 ''Mocha'' ''L'' 4])
         \<and> next_id self' = JInt 6
         \<and> console env' = [Error_saving])"
proof -
  have d: "drinks menu = JArr app_seed" and n: "next_id menu = JInt 5"
    by (simp_all add: menu_app_seed)
  have w: "Open_fails \<noteq> Write_ok" by simp
  have r: "new_drink menu mocha = drink 5 ''Mocha'' ''L'' 4"
    by (simp add: new_drink_def menu_app_seed mocha_def drink_def)
  show ?thesis
    using d n w add_drink_returns_when_write_fails [OF d n w, of mocha disk]
    by (simp add: r disk_console)
qed

text \<open>
  With \<^verbatim>\<open>open\<close> failing, adding Mocha to the menu returns the record, prints the
  message and leaves the files as they were.
\<close>

theorem add_drink_returns_when_write_fails_counterexample:
  "returned (add_drink Open_fails mocha menu disk) = Some (drink 5 ''Mocha'' ''L'' 4)
   \<and> map_option console (world_after (add_drink Open_fails mocha menu disk)) = Some [Error_saving]
   \<and> map_option files (world_after (add_drink Open_fails mocha menu disk)) = Some (files disk)"
  by (simp add: returned_def world_after_def add_drink_def Let_def menu_app_seed new_drink_def
      mocha_def drink_def save_data_def disk_console)

text \<open>
  C8. After an \<^verbatim>\<open>add_drink\<close> whose write failed, and after any further run of
  \<^verbatim>\<open>add_drink\<close> calls on the same store, the record it returned is in the list that
  \<^verbatim>\<open>get_all_drinks\<close> returns and in the result of \<^verbatim>\<open>get_drink_by_name\<close> for every
  query that equals its name up to case. The records the store held before are assumed
  to have a string name, without which \<^verbatim>\<open>get_drink_by_name\<close> raises.
\<close>

theorem failed_write_keeps_record:
  assumes "w \<noteq> Write_ok"
    and "drinks self = JArr ds" and "list_all has_name ds"
    and "add_drink w d self env = Inr (r, self1, env1)"
    and "add_drinks later self1 env1 = Inr (self2, env2)"
  shows "console env1 = console env @ [Error_saving]
         \<and> (\<exists>all. get_all_drinks self2 = JArr all \<and> r \<in> set all
               \<and> (\<forall>q. str_lower q = str_lower (name d) \<longrightarrow>
                    (\<exists>found. get_drink_by_name self2 q = Inr found \<and> r \<in> set found)))"
proof -
  from add_drink_Inr [OF assms(4) assms(2)]
  have r: "r = new_drink self d" and s1: "drinks self1 = JArr (ds @ [r])"
    and e1: "env1 = save_data w self1 env"
    by simp_all
  from add_drinks_keeps_records [OF assms(5) s1] obtain news where
    s2: "drinks self2 = JArr ((ds @ [r]) @ news)" and news: "list_all has_name news"
    by blast
  have named: "list_all has_name ((ds @ [r]) @ news)"
    using assms(3) news r by (simp add: has_name_def new_drink_fields(2))
  have "console env1 = console env @ [Error_saving]"
    using assms(1) e1 by (cases w) (simp_all add: save_data_def)
  moreover have "get_all_drinks self2 = JArr ((ds @ [r]) @ news)"
    using s2 by (simp add: get_all_drinks_def)
  moreover have "r \<in> set ((ds @ [r]) @ news)" by simp
  moreover have "\<forall>q. str_lower q = str_lower (name d) \<longrightarrow>
      (\<exists>found. get_drink_by_name self2 q = Inr found \<and> r \<in> set found)"
  proof (intro allI impI)
    fix q assume q: "str_lower q = str_lower (name d)"
    have "matches_ignoring_case q r"
      using q r by (simp add: matches_ignoring_case_def new_drink_fields(2))
    then have "r \<in> set (filter (matches_ignoring_case q) ((ds @ [r]) @ news))" by simp
    moreover have "get_drink_by_name self2 q = Inr (filter (matches_ignoring_case q) ((ds @ [r]) @ news))"
      using s2 named by (simp add: get_drink_by_name_def comprehension_filter)
    ultimately show "\<exists>found. get_drink_by_name self2 q = Inr found \<and> r \<in> set found"
      by blast
  qed
  ultimately show ?thesis by blast
qed

theorem failed_write_keeps_record_witness:
  "\<exists>r self1 env1 self2 env2 found.
      Open_fails \<noteq> Write_ok \<and> drinks menu = JArr app_seed \<and> list_all has_name app_seed
      \<and> add_drink Open_fails mocha menu disk = Inr (r, self1, env1)
      \<and> add_drinks [(Write_ok, mocha)] self1 env1 = Inr (self2, env2)
      \<and> r = drink 5 ''Mocha'' ''L'' 4
      \<and> console env1 = [Error_saving]
      \<and> (\<exists>all. get_all_drinks self2 = JArr all \<and> r \<in> set all)
      \<and> str_lower ''MOCHA'' = str_lower (name mocha)
      \<and> get_drink_by_name self2 ''MOCHA'' = Inr found \<and> r \<in> set found"
proof -
  let ?r = "new_drink menu mocha"
  let ?s1 = "menu\<lparr>drinks := JArr (app_seed @ [?r]), next_id := JInt (5 + 1)\<rparr>"
  let ?e1 = "save_data Open_fails ?s1 disk"
  let ?r2 = "new_drink ?s1 mocha"
  let ?s2 = "?s1\<lparr>drinks := JArr ((app_seed @ [?r]) @ [?r2]), next_id := JInt (5 + 1 + 1)\<rparr>"
  let ?e2 = "save_data Write_ok ?s2 ?e1"
  have w: "Open_fails \<noteq> Write_ok" by simp
  have d: "drinks menu = JArr app_seed" and n: "next_id menu = JInt 5"
    by (simp_all add: menu_app_seed)
  have one: "add_drink Open_fails mocha menu disk = Inr (?r, ?s1, ?e1)"
    using d n by (rule add_drink_step)
  have "add_drink Write_ok mocha ?s1 ?e1 = Inr (?r2, ?s2, ?e2)"
    by (rule add_drink_step) simp_all
  then have two: "add_drinks [(Write_ok, mocha)] ?s1 ?e1 = Inr (?s2, ?e2)"
    by simp
  have r: "?r = drink 5 ''Mocha'' ''L'' 4"
    by (simp add: new_drink_def menu_app_seed mocha_def drink_def)
  from failed_write_keeps_record [OF w d seed_names(1) one two]
  have c: "console ?e1 = console disk @ [Error_saving]"
    and a: "\<exists>all. get_all_drinks ?s2 = JArr all \<and> ?r \<in> set all"
    and q: "\<forall>q. str_lower q = str_lower (name mocha) \<longrightarrow>
              (\<exists>found. get_drink_by_name ?s2 q = Inr found \<and> ?r \<in> set found)"
    by blast+
  from q mocha_lower obtain found where
    f: "get_drink_by_name ?s2 ''MOCHA'' = Inr found" "?r \<in> set found"
    by blast
  from c have c': "console ?e1 = [Error_saving]" by (simp add: disk_console)
  show ?thesis
    using w d seed_names(1) one two r c' a mocha_lower f by blast
qed

section \<open>Validation of the name\<close>

text \<open>
  C2. The model accepts a name made of one space, and accepts a padded name without
  trimming it, whereas \<^verbatim>\<open>name_must_not_be_empty\<close>, had it been registered, rejects the
  first and trims the second.
\<close>

theorem whitespace_name_accepted:
  "DrinkCreate '' '' ''S'' (Finite 1) =
     Inr \<lparr>name = '' '', drink_size = ''S'', price = Finite 1\<rparr>
   \<and> name_must_not_be_empty '' '' = Inl ''Name cannot be empty''
   \<and> DrinkCreate '' Mocha '' ''S'' (Finite 1) =
       Inr \<lparr>name = '' Mocha '', drink_size = ''S'', price = Finite 1\<rparr>
   \<and> name_must_not_be_empty '' Mocha '' = Inr ''Mocha''"
  by (simp add: DrinkCreate_def validate_name_def validate_size_def validate_price_def
      min_length_1_def size_must_be_valid_def gt_0_def price_must_be_positive_def
      name_must_not_be_empty_def str_strip_def isspace_def)

section \<open>Finding by name\<close>



section \<open>Initialising, saving and loading\<close>

text \<open>
  C9. A store created on the path of a store that has just been saved successfully
  holds the same path, records and counter, and writes nothing.
\<close>

theorem load_data_inverts_save_data:
  "DrinkStorage w (data_file self) (save_data Write_ok self env) =
     (self, save_data Write_ok self env)"
  by (simp add: DrinkStorage_def load_data_def save_data_def document_def dict_get_def)

theorem load_data_inverts_save_data_witness:
  "DrinkStorage Open_fails ''test_storage_load_save.json'' (save_data Write_ok test_drink no_files) =
     (test_drink, save_data Write_ok test_drink no_files)
   \<and> drinks test_drink = JArr [drink 10 ''TestDrink'' ''S'' 1] \<and> next_id test_drink = JInt 11"
  using load_data_inverts_save_data [of Open_fails test_drink no_files]
  by (simp add: test_drink_def)

text \<open>
  C10. When the path holds an object whose \<^verbatim>\<open>drinks\<close> member is a list, the new
  store returns that list from \<^verbatim>\<open>get_all_drinks\<close> as it is and writes nothing. When
  every record of the list has a string name, \<^verbatim>\<open>get_drink_by_name\<close> returns the
  matching records as they are; when some record has none, it raises for every query.
  No field rule of the model is applied.
\<close>

theorem loaded_records_returned_unchanged:
  assumes "files env path = Some (Doc (JObj kvs))" and "map_of kvs ''drinks'' = Some (JArr ds)"
  shows "get_all_drinks (fst (DrinkStorage w path env)) = JArr ds
         \<and> (list_all has_name ds \<longrightarrow>
              get_drink_by_name (fst (DrinkStorage w path env)) q =
                Inr (filter (name_equals_ignoring_case q) ds))
         \<and> (\<not> list_all has_name ds \<longrightarrow>
              (\<exists>e. get_drink_by_name (fst (DrinkStorage w path env)) q = Inl e))
         \<and> snd (DrinkStorage w path env) = env"
  using assms
  by (simp add: DrinkStorage_loads get_all_drinks_def get_drink_by_name_def dict_get_def
      comprehension_filter filter_names comprehension_raises)

text \<open>
  A document whose records have an empty name, size XL, prices that are not positive
  and the id 0 twice is served as it is; the same fields are refused as creation input.
  On the document whose record has no name the search raises.
\<close>

theorem loaded_records_returned_unchanged_witness:
  "files unchecked_file ''drinks.json'' =
     Some (Doc (JObj [(''drinks'', JArr unchecked_records), (''next_id'', JInt 0)]))
   \<and> map_of [(''drinks'', JArr unchecked_records), (''next_id'', JInt 0)] ''drinks'' =
       Some (JArr unchecked_records)
   \<and> list_all has_name unchecked_records
   \<and> DrinkCreate [] ''XL'' (Finite (- 1)) =
       Inl [ValidationError ''name'' ''String should have at least 1 character'',
            ValidationError ''size'' ''Value error, Size must be S, M, or L'',
            ValidationError ''price'' ''Input should be greater than 0'']
   \<and> get_all_drinks (fst (DrinkStorage Write_ok ''drinks.json'' unchecked_file)) =
       JArr unchecked_records
   \<and> get_drink_by_name (fst (DrinkStorage Write_ok ''drinks.json'' unchecked_file)) [] =
       Inr [JObj [(''id'', JInt 0), (''name'', JStr []), (''size'', JStr ''XL''),
                  (''price'', JFloat (Finite (- 1)))]]
   \<and> get_drink_by_name (fst (DrinkStorage Write_ok ''drinks.json'' unchecked_file)) ''flat white'' =
       Inr [JObj [(''id'', JInt 0), (''name'', JStr ''Flat White''), (''size'', JStr ''M''),
                  (''price'', JInt 0)]]
   \<and> snd (DrinkStorage Write_ok ''drinks.json'' unchecked_file) = unchecked_file
   \<and> \<not> list_all has_name [JObj [(''id'', JInt 1)]]
   \<and> (\<exists>e. get_drink_by_name (fst (DrinkStorage Write_ok ''drinks.json'' nameless_file)) ''latte'' =
            Inl e)"
proof -
  have f: "files unchecked_file ''drinks.json'' =
     Some (Doc (JObj [(''drinks'', JArr unchecked_records), (''next_id'', JInt 0)]))"
    by (simp add: unchecked_file_def one_file_def)
  have m: "map_of [(''drinks'', JArr unchecked_records), (''next_id'', JInt 0)] ''drinks'' =
       Some (JArr unchecked_records)"
    by simp
  have v: "DrinkCreate [] ''XL'' (Finite (- 1)) =
       Inl [ValidationError ''name'' ''String should have at least 1 character'',
            ValidationError ''size'' ''Value error, Size must be S, M, or L'',
            ValidationError ''price'' ''Input should be greater than 0'']"
    by (simp add: DrinkCreate_def validate_name_def validate_size_def validate_price_def
        min_length_1_def size_must_be_valid_def gt_0_def)
  have f': "files nameless_file ''drinks.json'' =
     Some (Doc (JObj [(''drinks'', JArr [JObj [(''id'', JInt 1)]]), (''next_id'', JInt 2)]))"
    by (simp add: nameless_file_def one_file_def)
  have m': "map_of [(''drinks'', JArr [JObj [(''id'', JInt 1)]]), (''next_id'', JInt 2)] ''drinks'' =
       Some (JArr [JObj [(''id'', JInt 1)]])"
    by simp
  have n: "\<not> list_all has_name [JObj [(''id'', JInt 1)]]"
    by (simp add: has_name_def)
  note loaded = loaded_records_returned_unchanged [OF f m, of Write_ok]
  note nameless = loaded_records_returned_unchanged [OF f' m', of Write_ok "''latte''"]
  show ?thesis
    using f m v n loaded [of "[]"] loaded [of "''flat white''"] nameless
    by (simp add: unchecked_queries)
qed

text \<open>
  Two documents that parse. On the one whose record has no name, the list is returned
  and the search raises \<^verbatim>\<open>KeyError\<close>. The one that is a list is not loaded: the store
  holds the seed and has written it over the document.
\<close>

theorem loaded_records_returned_unchanged_counterexample:
  "get_all_drinks (fst (DrinkStorage Write_ok ''drinks.json'' nameless_file)) =
     JArr [JObj [(''id'', JInt 1)]]
   \<and> get_drink_by_name (fst (DrinkStorage Write_ok ''drinks.json'' nameless_file)) ''latte'' =
       Inl KeyError
   \<and> get_all_drinks (fst (DrinkStorage Write_ok ''drinks.json'' array_file)) = JArr app_seed
   \<and> files (snd (DrinkStorage Write_ok ''drinks.json'' array_file)) ''drinks.json'' =
       Some (Doc (JObj [(''drinks'', JArr app_seed), (''next_id'', JInt 5)]))"
proof -
  have f: "files nameless_file ''drinks.json'' =
     Some (Doc (JObj [(''drinks'', JArr [JObj [(''id'', JInt 1)]]), (''next_id'', JInt 2)]))"
    by (simp add: nameless_file_def one_file_def)
  have "get_all_drinks (fst (DrinkStorage Write_ok ''drinks.json'' nameless_file)) =
     JArr [JObj [(''id'', JInt 1)]]"
    by (simp add: DrinkStorage_loads [OF f] get_all_drinks_def dict_get_def)
  moreover have "get_drink_by_name (fst (DrinkStorage Write_ok ''drinks.json'' nameless_file))
      ''latte'' = Inl KeyError"
    by (simp add: DrinkStorage_loads [OF f] get_drink_by_name_def dict_get_def)
  moreover have a: "\<not> loads_document array_file ''drinks.json''"
    by (simp add: loads_document_def array_file_def one_file_def)
  have "get_all_drinks (fst (DrinkStorage Write_ok ''drinks.json'' array_file)) = JArr app_seed"
    by (simp add: DrinkStorage_seeds(1) [OF a] get_all_drinks_def startswith_def)
  moreover have "files (snd (DrinkStorage Write_ok ''drinks.json'' array_file)) ''drinks.json'' =
       Some (Doc (JObj [(''drinks'', JArr app_seed), (''next_id'', JInt 5)]))"
    by (simp add: DrinkStorage_seeds(2) [OF a] DrinkStorage_seeds(1) [OF a] document_def
        startswith_def)
  ultimately show ?thesis by simp
qed

text \<open>
  C6. When the path holds no document that loads, the new store holds a non-empty
  list of records whose ids are positive, distinct and below the counter, and when the
  write succeeds the path holds exactly that state.
\<close>

theorem seeded_store_nonempty_valid:
  assumes "\<not> loads_document env path"
  shows "nonempty_records (fst (DrinkStorage w path env))
         \<and> valid_ids (fst (DrinkStorage w path env))
         \<and> files (snd (DrinkStorage Write_ok path env)) path =
             Some (Doc (document (fst (DrinkStorage Write_ok path env))))"
proof -
  have "nonempty_records (fst (DrinkStorage w path env))"
    by (simp add: DrinkStorage_seeds(1) [OF assms] nonempty_records_def test_seed_def app_seed_def)
  moreover have "valid_ids (fst (DrinkStorage w path env))"
  proof -
    have "distinct (ids (fst (DrinkStorage w path env)))"
      by (simp add: ids_def DrinkStorage_seeds(1) [OF assms] seeds_valid upto_rec1)
    moreover have "list_all (\<lambda>i. case i of Some k \<Rightarrow> 0 < k | None \<Rightarrow> False)
                     (ids (fst (DrinkStorage w path env)))"
      by (simp add: ids_def DrinkStorage_seeds(1) [OF assms] seeds_valid upto_rec1)
    ultimately show ?thesis
      using seeded_invariant [OF assms, of w] by (simp add: valid_ids_def)
  qed
  ultimately show ?thesis using DrinkStorage_seeds(2) [OF assms] by simp
qed

theorem seeded_store_nonempty_valid_witness:
  "\<not> loads_document garbled_file ''drinks.json''
   \<and> nonempty_records (fst (DrinkStorage Dump_fails ''drinks.json'' garbled_file))
   \<and> valid_ids (fst (DrinkStorage Dump_fails ''drinks.json'' garbled_file))
   \<and> drinks (fst (DrinkStorage Dump_fails ''drinks.json'' garbled_file)) = JArr app_seed
   \<and> files (snd (DrinkStorage Write_ok ''drinks.json'' garbled_file)) ''drinks.json'' =
       Some (Doc (JObj [(''drinks'', JArr app_seed), (''next_id'', JInt 5)]))"
proof -
  note h = not_loads(2)
  have s: "\<And>w. fst (DrinkStorage w ''drinks.json'' garbled_file) =
      \<lparr>data_file = ''drinks.json'', drinks = JArr app_seed, next_id = JInt 5\<rparr>"
    by (simp add: DrinkStorage_seeds(1) [OF h] startswith_def)
  from seeded_store_nonempty_valid [OF h, of Dump_fails] show ?thesis
    using h by (simp add: s document_def)
qed

text \<open>
  A document that is the empty object loads as an empty menu; a document with records
  and no counter loads with the counter 1, not above the ids; and a seed whose write
  fails is not on the path.
\<close>

theorem seeded_store_nonempty_valid_counterexample:
  "\<not> nonempty_records
        (fst (DrinkStorage Write_ok ''drinks.json'' (one_file ''drinks.json'' (JObj []))))
   \<and> \<not> valid_ids (fst (DrinkStorage Write_ok ''drinks.json'' stale_counter))
   \<and> files (snd (DrinkStorage Open_fails ''drinks.json'' no_files)) ''drinks.json'' = None"
proof -
  have "DrinkStorage Write_ok ''drinks.json'' (one_file ''drinks.json'' (JObj [])) =
      (\<lparr>data_file = ''drinks.json'', drinks = JArr [], next_id = JInt 1\<rparr>,
       one_file ''drinks.json'' (JObj []))"
    by (simp add: DrinkStorage_def load_data_def one_file_def dict_get_def)
  then have "\<not> nonempty_records
        (fst (DrinkStorage Write_ok ''drinks.json'' (one_file ''drinks.json'' (JObj []))))"
    by (simp add: nonempty_records_def)
  moreover have "\<not> valid_ids (fst (DrinkStorage Write_ok ''drinks.json'' stale_counter))"
    by (simp add: stale_counter_loaded valid_ids_def next_id_above_ids_def drink_def)
  moreover have "files (snd (DrinkStorage Open_fails ''drinks.json'' no_files)) ''drinks.json'' = None"
  proof -
    have "files (snd (DrinkStorage Open_fails ''drinks.json'' no_files)) = files no_files"
      by (rule DrinkStorage_seeds(3) [OF not_loads(1)])
    then show ?thesis by (simp add: no_files_def)
  qed
  ultimately show ?thesis by simp
qed

text \<open>
  C7. When the path holds no document that loads, the seed depends on the path only
  through whether it starts with \<^verbatim>\<open>test_\<close>: two records with ids 1, 2 and counter 3 if
  it does, four records with ids 1 to 4 and counter 5 if not. It is written to the path
  when the write succeeds, and every such initialisation on the same path gives the same
  store.
\<close>

theorem seed_chosen_by_path_prefix:
  assumes "\<not> loads_document env path"
  shows "fst (DrinkStorage w path env) =
           \<lparr>data_file = path,
            drinks = JArr (if startswith path ''test_'' then test_seed else app_seed),
            next_id = JInt (if startswith path ''test_'' then 3 else 5)\<rparr>
         \<and> ids (fst (DrinkStorage w path env)) =
             map Some [1 .. (if startswith path ''test_'' then 2 else 4)]
         \<and> files (snd (DrinkStorage Write_ok path env)) path =
             Some (Doc (document (fst (DrinkStorage Write_ok path env))))
         \<and> (\<forall>w' env'. \<not> loads_document env' path \<longrightarrow>
               fst (DrinkStorage w' path env') = fst (DrinkStorage w path env))"
proof -
  have "ids (fst (DrinkStorage w path env)) =
          map Some [1 .. (if startswith path ''test_'' then 2 else 4)]"
    by (simp add: ids_def DrinkStorage_seeds(1) [OF assms] seeds_valid)
  moreover have "\<forall>w' env'. \<not> loads_document env' path \<longrightarrow>
               fst (DrinkStorage w' path env') = fst (DrinkStorage w path env)"
    by (simp add: DrinkStorage_seeds(1) [OF assms] DrinkStorage_seeds(1))
  ultimately show ?thesis
    using DrinkStorage_seeds(1) [OF assms, of w] DrinkStorage_seeds(2) [OF assms] by simp
qed

theorem seed_chosen_by_path_prefix_witness:
  "\<not> loads_document no_files ''test_drinks.json''
   \<and> startswith ''test_drinks.json'' ''test_''
   \<and> fst (DrinkStorage Write_ok ''test_drinks.json'' no_files) =
       \<lparr>data_file = ''test_drinks.json'', drinks = JArr test_seed, next_id = JInt 3\<rparr>
   \<and> ids (fst (DrinkStorage Write_ok ''test_drinks.json'' no_files)) = map Some [1, 2]
   \<and> files (snd (DrinkStorage Write_ok ''test_drinks.json'' no_files)) ''test_drinks.json'' =
       Some (Doc (JObj [(''drinks'', JArr test_seed), (''next_id'', JInt 3)]))
   \<and> fst (DrinkStorage Open_fails ''test_drinks.json'' no_files) =
       fst (DrinkStorage Write_ok ''test_drinks.json'' no_files)"
proof -
  note h = not_loads(1) [of "''test_drinks.json''"]
  have p: "startswith ''test_drinks.json'' ''test_''" by (simp add: startswith_def)
  from seed_chosen_by_path_prefix [OF h, of Write_ok] show ?thesis
    using h p by (simp add: document_def ids_def seeds_valid upto_rec1)
qed

text \<open>
The seed for \<^verbatim>\<open>test_drinks.json\<close> is not the seed for \<^verbatim>\<open>drinks.json\<close>.
\<close>

theorem seed_chosen_by_path_prefix_counterexample:
  "drinks (fst (DrinkStorage Write_ok ''test_drinks.json'' no_files)) = JArr test_seed
   \<and> next_id (fst (DrinkStorage Write_ok ''test_drinks.json'' no_files)) = JInt 3
   \<and> drinks (fst (DrinkStorage Write_ok ''drinks.json'' no_files)) = JArr app_seed
   \<and> next_id (fst (DrinkStorage Write_ok ''drinks.json'' no_files)) = JInt 5
   \<and> test_seed \<noteq> app_seed"
  by (simp add: DrinkStorage_seeds(1) [OF not_loads(1)] startswith_def test_seed_def app_seed_def)

text \<open>
  C4. If initialisation seeds the store, or loads a document in which the counter is
  above every id, then every run of \<^verbatim>\<open>add_drink\<close> calls returns, the counter is above
  every id afterwards, and the ids handed out are the consecutive integers from the
  initial counter on, so none is an id already in the store.
\<close>

theorem add_drinks_keep_next_id_above_ids:
  assumes "loads_document env path \<longrightarrow> next_id_above_ids (fst (DrinkStorage w path env))"
  shows "\<exists>self' env' n.
           next_id (fst (DrinkStorage w path env)) = JInt n
           \<and> add_drinks steps (fst (DrinkStorage w path env)) (snd (DrinkStorage w path env)) =
               Inr (self', env')
           \<and> next_id_above_ids self'
           \<and> next_id self' = JInt (n + int (length steps))
           \<and> ids self' =
               ids (fst (DrinkStorage w path env)) @ map Some [n .. n + int (length steps) - 1]"
proof -
  have "next_id_above_ids (fst (DrinkStorage w path env))"
    using assms seeded_invariant by blast
  then show ?thesis by (rule add_drinks_keep_invariant)
qed

theorem add_drinks_keep_next_id_above_ids_witness:
  "loads_document disk ''drinks.json''
   \<and> next_id_above_ids (fst (DrinkStorage Write_ok ''drinks.json'' disk))
   \<and> (\<exists>self' env'.
         add_drinks [(Open_fails, mocha), (Write_ok, mocha)]
           (fst (DrinkStorage Write_ok ''drinks.json'' disk))
           (snd (DrinkStorage Write_ok ''drinks.json'' disk)) = Inr (self', env')
         \<and> next_id_above_ids self'
         \<and> next_id self' = JInt 7
         \<and> ids self' = map Some [1, 2, 3, 4, 5, 6])"
proof -
  have h: "next_id_above_ids (fst (DrinkStorage Write_ok ''drinks.json'' disk))"
    by (simp add: reopened_menu menu_invariant)
  then have "loads_document disk ''drinks.json'' \<longrightarrow>
      next_id_above_ids (fst (DrinkStorage Write_ok ''drinks.json'' disk))"
    by simp
  from add_drinks_keep_next_id_above_ids
    [OF this, of "[(Open_fails, mocha), (Write_ok, mocha)]"]
  show ?thesis
    using h disk_loads
    by (simp add: reopened_menu menu_app_seed ids_def seeds_valid upto_rec1)
qed

text \<open>
  A document with one record of id 1 and no counter loads with the counter 1, and the
  next record added gets the id 1 again.
\<close>

theorem add_drinks_keep_next_id_above_ids_counterexample:
  "\<not> next_id_above_ids (fst (DrinkStorage Write_ok ''drinks.json'' stale_counter))
   \<and> ids (fst (DrinkStorage Write_ok ''drinks.json'' stale_counter)) = [Some 1]
   \<and> next_id (fst (DrinkStorage Write_ok ''drinks.json'' stale_counter)) = JInt 1
   \<and> returned (add_drink Write_ok mocha
        (fst (DrinkStorage Write_ok ''drinks.json'' stale_counter))
        (snd (DrinkStorage Write_ok ''drinks.json'' stale_counter))) =
       Some (drink 1 ''Mocha'' ''L'' 4)"
  by (simp add: stale_counter_loaded next_id_above_ids_def ids_def returned_def add_drink_def
      Let_def new_drink_def mocha_def drink_def)

end
